theory Spec2Isabelle
  imports Complex_Main "HOL-Library.AList"
begin

section \<open>Dates and timestamps\<close>

text \<open>
  A \<open>datetime.date\<close> is taken as its proleptic Gregorian ordinal (\<open>date.toordinal()\<close>:
  day 1 is 0001-01-01), so that comparing two dates compares the ordinals and adding
  \<open>timedelta(days=n)\<close> adds \<open>n\<close>. A pandas \<open>Timestamp\<close> (a \<open>datetime64[ns]\<close> value) is the
  number of nanoseconds since 1970-01-01T00:00. Both are unbounded integers here: the
  finite ranges of the two types are not part of the model. The current date
  \<open>date.today()\<close> is an argument of every function that reads it, and one call sees one
  date.
\<close>

type_synonym date = int
type_synonym timestamp = int

definition ns_per_day :: int where
  "ns_per_day = 86400000000000"

definition epoch_ordinal :: date where
  "epoch_ordinal = 719163"

text \<open>\<open>pd.to_datetime(d)\<close> for a date \<open>d\<close>: midnight of that day.\<close>

definition to_datetime :: "date \<Rightarrow> timestamp" where
  "to_datetime d = (d - epoch_ordinal) * ns_per_day"

text \<open>\<open>timedelta(days=n)\<close> in nanoseconds, as added to a \<open>Timestamp\<close>.\<close>

definition timedelta_days :: "int \<Rightarrow> int" where
  "timedelta_days n = n * ns_per_day"

text \<open>\<open>Timestamp.date()\<close>: the calendar day a timestamp falls on.\<close>

definition dt_date :: "timestamp \<Rightarrow> date" where
  "dt_date t = epoch_ordinal + t div ns_per_day"

subsection \<open>The calendar\<close>

text \<open>
  Year, month and day of an ordinal, by the algorithm of Python's \<open>datetime\<close> module
  (\<open>_ord2ymd\<close>, \<open>_ymd2ord\<close> and their helpers). The tables \<open>_DAYS_IN_MONTH\<close> and
  \<open>_DAYS_BEFORE_MONTH\<close> are functions of the month number.
\<close>

definition is_leap :: "int \<Rightarrow> bool" where
  "is_leap year = (year mod 4 = 0 \<and> (year mod 100 \<noteq> 0 \<or> year mod 400 = 0))"

definition days_before_year :: "int \<Rightarrow> int" where
  "days_before_year year = (let y = year - 1 in y * 365 + y div 4 - y div 100 + y div 400)"

definition DAYS_IN_MONTH :: "int \<Rightarrow> int" where
  "DAYS_IN_MONTH m =
     (if m = 2 then 28 else if m = 4 \<or> m = 6 \<or> m = 9 \<or> m = 11 then 30 else 31)"

definition DAYS_BEFORE_MONTH :: "int \<Rightarrow> int" where
  "DAYS_BEFORE_MONTH m =
     (if m = 1 then 0 else if m = 2 then 31 else if m = 3 then 59 else if m = 4 then 90
      else if m = 5 then 120 else if m = 6 then 151 else if m = 7 then 181
      else if m = 8 then 212 else if m = 9 then 243 else if m = 10 then 273
      else if m = 11 then 304 else 334)"

definition days_before_month :: "int \<Rightarrow> int \<Rightarrow> int" where
  "days_before_month year month =
     DAYS_BEFORE_MONTH month + (if month > 2 \<and> is_leap year then 1 else 0)"

definition ymd2ord :: "int \<Rightarrow> int \<Rightarrow> int \<Rightarrow> date" where
  "ymd2ord year month day = days_before_year year + days_before_month year month + day"

text \<open>
  The last step of \<open>_ord2ymd\<close>: month and day of the offset \<open>n\<close> of a day from the 1st of
  January of its year. The month is estimated, and the estimate is either exact or one
  too large.
\<close>

definition month_of_offset :: "int \<Rightarrow> bool \<Rightarrow> int \<times> int" where
  "month_of_offset n leapyear =
     (let month = (n + 50) div 32;
          preceding = DAYS_BEFORE_MONTH month + (if month > 2 \<and> leapyear then 1 else 0)
      in if preceding > n
         then let month = month - 1;
                  preceding = preceding
                    - (DAYS_IN_MONTH month + (if month = 2 \<and> leapyear then 1 else 0))
              in (month, n - preceding + 1)
         else (month, n - preceding + 1))"

definition ord2ymd :: "date \<Rightarrow> int \<times> int \<times> int" where
  "ord2ymd n0 =
     (let n = n0 - 1;
          n400 = n div 146097; n = n mod 146097;
          year = n400 * 400 + 1;
          n100 = n div 36524; n = n mod 36524;
          n4 = n div 1461; n = n mod 1461;
          n1 = n div 365; n = n mod 365;
          year = year + n100 * 100 + n4 * 4 + n1
      in if n1 = 4 \<or> n100 = 4 then (year - 1, 12, 31)
         else
           let leapyear = (n1 = 3 \<and> (n4 \<noteq> 24 \<or> n100 = 3))
           in case month_of_offset n leapyear of (month, day) \<Rightarrow> (year, month, day))"

text \<open>
  \<open>.dt.to_period("M").dt.to_timestamp()\<close> on one timestamp: midnight of the first day of
  its calendar month.
\<close>

definition month_start :: "timestamp \<Rightarrow> timestamp" where
  "month_start t = (case ord2ymd (dt_date t) of (y, m, d) \<Rightarrow> to_datetime (ymd2ord y m 1))"

section \<open>Data frames\<close>

text \<open>
  The three status labels are string constants in the source; they are an enumeration
  here. A cell is a text, an integer, a float (as a real number: rounding is not
  modelled), a timestamp, a status label, or missing (\<open>NaN\<close>, \<open>NaT\<close>, \<open>None\<close>).
  A \<open>Series\<close> is the list of its cells, a \<open>DataFrame\<close> the list of its columns in order,
  each with its name; all columns of a frame have the same length.
\<close>

datatype status = Expire | Bientot | Actif

datatype cell = Str string | IntC int | FloatC real | Stamp timestamp | Stat status | NaN

type_synonym series = "cell list"
type_synonym frame = "(string \<times> series) list"

datatype error =
    KeyError string
  | NotDatetimeLike
  | TypeError
  | EmptyDataError
  | ValueError
  | PermissionError
  | OSError

text \<open>\<open>len(df)\<close>: the number of rows.\<close>

definition nrows :: "frame \<Rightarrow> nat" where
  "nrows df = (case df of [] \<Rightarrow> 0 | (c, s) # rest \<Rightarrow> length s)"

text \<open>\<open>df.empty\<close>: no column or no row.\<close>

definition df_empty :: "frame \<Rightarrow> bool" where
  "df_empty df = (df = [] \<or> nrows df = 0)"

text \<open>\<open>df[c]\<close> raises \<open>KeyError\<close> for a column the frame does not have.\<close>

definition getitem :: "frame \<Rightarrow> string \<Rightarrow> error + series" where
  "getitem df c = (case map_of df c of None \<Rightarrow> Inl (KeyError c) | Some s \<Rightarrow> Inr s)"

text \<open>
  \<open>pd.concat([df, new_row], ignore_index=True)\<close>: the rows of the second frame under those
  of the first; a column one of them lacks is filled with missing values.
\<close>

definition column_or_nan :: "frame \<Rightarrow> string \<Rightarrow> series" where
  "column_or_nan df c = (case map_of df c of None \<Rightarrow> replicate (nrows df) NaN | Some s \<Rightarrow> s)"

definition pd_concat :: "frame \<Rightarrow> frame \<Rightarrow> frame" where
  "pd_concat df1 df2 =
     map (\<lambda>(c, s). (c, s @ column_or_nan df2 c)) df1
     @ map (\<lambda>(c, s). (c, replicate (nrows df1) NaN @ s))
         (filter (\<lambda>(c, s). c \<notin> set (map fst df1)) df2)"

text \<open>
  The empty frame \<open>load_data\<close> makes when there is no file: the nine columns, no row.
\<close>

definition column_names :: "string list" where
  "column_names = [''ID'', ''Nom'', ''Telephone'', ''Abonnement'', ''DureeJours'',
     ''Montant'', ''Debut'', ''Expiration'', ''Remarques'']"

definition empty_frame :: frame where
  "empty_frame = map (\<lambda>c. (c, [])) column_names"

subsection \<open>Frames as objects\<close>

text \<open>
  \<open>df.copy()\<close> makes a new object and \<open>df[c] = s\<close> changes an object in place, so
  \<open>df_with_status\<close> works on a store of frames: \<open>objs h r\<close> is the frame at reference \<open>r\<close>,
  and the references below \<open>fresh h\<close> are the ones in use.
\<close>

type_synonym ref = nat

record heap =
  objs :: "ref \<Rightarrow> frame"
  fresh :: ref

definition df_copy :: "heap \<Rightarrow> ref \<Rightarrow> ref \<times> heap" where
  "df_copy h r = (fresh h, h\<lparr>objs := (objs h)(fresh h := objs h r), fresh := Suc (fresh h)\<rparr>)"

text \<open>
  \<open>df[c] = s\<close>: an existing column is replaced where it stands, a new one is added last.
\<close>

definition setitem :: "heap \<Rightarrow> ref \<Rightarrow> string \<Rightarrow> series \<Rightarrow> heap" where
  "setitem h r c s = h\<lparr>objs := (objs h)(r := AList.update c s (objs h r))\<rparr>"

section \<open>Status engine\<close>

definition status_for :: "date \<Rightarrow> int \<Rightarrow> date \<Rightarrow> status" where
  "status_for exp_date warn_days today =
     (if exp_date < today then Expire
      else if exp_date \<le> today + warn_days then Bientot
      else Actif)"

text \<open>
  \<open>.dt.date\<close> on a column: the dates of its timestamps. On a column that is not made of
  timestamps the accessor (or the comparison with a missing date later on) raises; the
  model has one error for both.
\<close>

fun dt_date_col :: "series \<Rightarrow> error + date list" where
  "dt_date_col [] = Inr []"
| "dt_date_col (Stamp t # cs) =
     (case dt_date_col cs of Inl e \<Rightarrow> Inl e | Inr ds \<Rightarrow> Inr (dt_date t # ds))"
| "dt_date_col (c # cs) = Inl NotDatetimeLike"

text \<open>
  \<open>df_with_status\<close> returns the reference of the copy, or the error raised, and the store
  as it is then.
\<close>

definition df_with_status :: "heap \<Rightarrow> ref \<Rightarrow> int \<Rightarrow> date \<Rightarrow> (error + ref) \<times> heap" where
  "df_with_status h df warn_days today =
     (case df_copy h df of (df2, h1) \<Rightarrow>
        if df_empty (objs h1 df2) then (Inr df2, h1)
        else
          (case getitem (objs h1 df2) ''Expiration'' of
             Inl e \<Rightarrow> (Inl e, h1)
           | Inr col \<Rightarrow>
              (case dt_date_col col of
                 Inl e \<Rightarrow> (Inl e, h1)
               | Inr ds \<Rightarrow>
                  (let h2 = setitem h1 df2 ''Statut''
                              (map (\<lambda>d. Stat (status_for d warn_days today)) ds)
                   in case getitem (objs h2 df2) ''Expiration'' of
                        Inl e \<Rightarrow> (Inl e, h2)
                      | Inr col2 \<Rightarrow>
                         (case dt_date_col col2 of
                            Inl e \<Rightarrow> (Inl e, h2)
                          | Inr ds2 \<Rightarrow>
                             (Inr df2,
                              setitem h2 df2 ''JoursRestants''
                                (map (\<lambda>d. IntC (d - today)) ds2)))))))"

text \<open>
  The script's \<open>df_status = df_with_status(df, warn_days)\<close>: the frame \<open>df\<close> is the one
  object of the store, and the result is the frame at the reference returned.
\<close>

definition single :: "frame \<Rightarrow> heap" where
  "single df = \<lparr>objs = (\<lambda>r. if r = 0 then df else []), fresh = 1\<rparr>"

definition df_status_of :: "frame \<Rightarrow> int \<Rightarrow> date \<Rightarrow> error + frame" where
  "df_status_of df warn_days today =
     (case df_with_status (single df) 0 warn_days today of
        (Inl e, h) \<Rightarrow> Inl e
      | (Inr r, h) \<Rightarrow> Inr (objs h r))"

section \<open>Aggregation\<close>

text \<open>
  The four metrics: \<open>len(df_status)\<close> and, for each label, \<open>(df_status["Statut"] == label).sum()\<close>.
\<close>

definition count_status :: "series \<Rightarrow> status \<Rightarrow> nat" where
  "count_status col s = length (filter (\<lambda>c. c = Stat s) col)"

definition status_metrics :: "frame \<Rightarrow> error + (nat \<times> nat \<times> nat \<times> nat)" where
  "status_metrics df_status =
     (let total = nrows df_status
      in case getitem df_status ''Statut'' of
           Inl e \<Rightarrow> Inl e
         | Inr col \<Rightarrow>
             Inr (total, count_status col Actif, count_status col Bientot,
                  count_status col Expire))"

text \<open>\<open>.dt.to_period("M").dt.to_timestamp()\<close> on a column.\<close>

fun month_col :: "series \<Rightarrow> error + timestamp list" where
  "month_col [] = Inr []"
| "month_col (Stamp t # cs) =
     (case month_col cs of Inl e \<Rightarrow> Inl e | Inr ms \<Rightarrow> Inr (month_start t # ms))"
| "month_col (c # cs) = Inl NotDatetimeLike"

text \<open>
  The amounts a sum adds up: a missing amount is skipped (it adds nothing), a cell that
  is not a number makes the sum raise.
\<close>

fun amounts :: "series \<Rightarrow> error + real list" where
  "amounts [] = Inr []"
| "amounts (c # cs) =
     (case amounts cs of
        Inl e \<Rightarrow> Inl e
      | Inr vs \<Rightarrow>
         (case c of
            FloatC x \<Rightarrow> Inr (x # vs)
          | IntC n \<Rightarrow> Inr (of_int n # vs)
          | NaN \<Rightarrow> Inr (0 # vs)
          | _ \<Rightarrow> Inl TypeError))"

text \<open>
  \<open>groupby(key).sum()\<close>: one group for each key, the groups in ascending order of the key.
  A row is added to the group of its key, or opens a new group at the key's place.
\<close>

fun add_group :: "int \<Rightarrow> real \<Rightarrow> (int \<times> real) list \<Rightarrow> (int \<times> real) list" where
  "add_group k v [] = [(k, v)]"
| "add_group k v ((k', t) # gs) =
     (if k = k' then (k', t + v) # gs
      else if k < k' then (k, v) # (k', t) # gs
      else (k', t) # add_group k v gs)"

definition groupby_sum :: "(int \<times> real) list \<Rightarrow> (int \<times> real) list" where
  "groupby_sum rows = foldl (\<lambda>gs (k, v). add_group k v gs) [] rows"

text \<open>
  The table of the revenue chart: the column \<open>Mois\<close> is added to \<open>df_status\<close>, then the
  amounts are summed by month. The result is the rows of
  \<open>groupby("Mois")["Montant"].sum().reset_index()\<close>, with the frame as it is then.
\<close>

definition revenue_by_month :: "frame \<Rightarrow> error + ((timestamp \<times> real) list \<times> frame)" where
  "revenue_by_month df_status =
     (case getitem df_status ''Debut'' of
        Inl e \<Rightarrow> Inl e
      | Inr col \<Rightarrow>
         (case month_col col of
            Inl e \<Rightarrow> Inl e
          | Inr ms \<Rightarrow>
             (let df' = AList.update ''Mois'' (map Stamp ms) df_status
              in case getitem df' ''Montant'' of
                   Inl e \<Rightarrow> Inl e
                 | Inr am \<Rightarrow>
                    (case amounts am of
                       Inl e \<Rightarrow> Inl e
                     | Inr vs \<Rightarrow> Inr (groupby_sum (zip ms vs), df')))))"

section \<open>Text\<close>

text \<open>
  A text is a list of characters with codes below 256. \<open>str.strip()\<close> removes the
  whitespace at both ends; the characters Python counts as whitespace in that range are
  the codes 9 to 13, 28 to 32, 133 and 160.
\<close>

definition is_space :: "char \<Rightarrow> bool" where
  "is_space c =
     (let n = (of_char c :: nat)
      in (9 \<le> n \<and> n \<le> 13) \<or> (28 \<le> n \<and> n \<le> 32) \<or> n = 133 \<or> n = 160)"

definition strip :: "string \<Rightarrow> string" where
  "strip s = rev (dropWhile is_space (rev (dropWhile is_space s)))"

section \<open>The record store\<close>

subsection \<open>The CSV file\<close>

text \<open>
  A CSV file is a table of text fields under a header: here the list of its columns,
  each the header name with the fields below it (separators and quoting are not
  modelled). How pandas writes a number or a timestamp, which further markers it reads as
  missing, and how it chooses the type of a column from the fields present, are not
  fixed by the source; they are the components of a \<open>codec\<close>, and every statement
  below holds for all of them. What is fixed: a text cell is written as it is, a missing
  cell as the empty field, and an empty field is read as missing.
\<close>

type_synonym csv = "(string \<times> string list) list"

record codec =
  fmt :: "cell \<Rightarrow> string"
  na_values :: "string list"
  conv :: "string list \<Rightarrow> string \<Rightarrow> cell"
  conv_date :: "string list \<Rightarrow> string \<Rightarrow> cell"

definition render :: "codec \<Rightarrow> cell \<Rightarrow> string" where
  "render cd c = (case c of Str s \<Rightarrow> s | NaN \<Rightarrow> [] | _ \<Rightarrow> fmt cd c)"

text \<open>\<open>df.to_csv(path, index=False)\<close>: the text of the file.\<close>

definition to_csv :: "codec \<Rightarrow> frame \<Rightarrow> csv" where
  "to_csv cd df = map (\<lambda>(c, s). (c, map (render cd) s)) df"

definition is_na :: "codec \<Rightarrow> string \<Rightarrow> bool" where
  "is_na cd f = (f = [] \<or> f \<in> set (na_values cd))"

text \<open>
  One column read back: a missing field is \<open>NaN\<close>, any other is converted as the fields of
  the whole column decide.
\<close>

definition read_col :: "codec \<Rightarrow> (string list \<Rightarrow> string \<Rightarrow> cell) \<Rightarrow> string list \<Rightarrow> series" where
  "read_col cd cv flds = map (\<lambda>f. if is_na cd f then NaN else cv flds f) flds"

definition parse_dates :: "string list" where
  "parse_dates = [''Debut'', ''Expiration'']"

text \<open>
  \<open>pd.read_csv(path, parse_dates=["Debut", "Expiration"])\<close>: a file with no header and a
  file without one of the two date columns are errors.
\<close>

definition read_csv :: "codec \<Rightarrow> csv \<Rightarrow> error + frame" where
  "read_csv cd f =
     (if f = [] then Inl EmptyDataError
      else if \<not> list_all (\<lambda>c. c \<in> set (map fst f)) parse_dates then Inl ValueError
      else Inr (map (\<lambda>(c, flds).
                  (c, read_col cd (if c \<in> set parse_dates then conv_date cd else conv cd) flds))
                f))"

subsection \<open>Files and the cache\<close>

text \<open>
  The storage is the file system (a file per path, if it exists) and the cache of
  \<open>st.cache_data\<close> for \<open>load_data\<close> (the frame returned for a path, if one was).
\<close>

record storage =
  files :: "string \<rightharpoonup> csv"
  cache :: "string \<rightharpoonup> frame"

definition DATA_PATH :: string where
  "DATA_PATH = ''abonnements.csv''"

text \<open>
  \<open>load_data\<close> behind \<open>@st.cache_data\<close>: a cached frame is returned without reading the
  file; a frame that was read is cached, an error is not.
\<close>

definition load_data :: "codec \<Rightarrow> string \<Rightarrow> storage \<Rightarrow> (error + frame) \<times> storage" where
  "load_data cd path st =
     (case cache st path of
        Some df \<Rightarrow> (Inr df, st)
      | None \<Rightarrow>
         (case (case files st path of Some f \<Rightarrow> read_csv cd f | None \<Rightarrow> Inr empty_frame) of
            Inl e \<Rightarrow> (Inl e, st)
          | Inr df \<Rightarrow> (Inr df, st\<lparr>cache := (cache st)(path \<mapsto> df)\<rparr>)))"

text \<open>
  A write can fail. \<open>to_csv\<close> opens the file at \<open>path\<close> for writing, which empties it, and
  writes the header and then the rows. \<open>FailOpen\<close> is a failure to open the file (no
  permission); \<open>FailAfter k\<close> is a failure after \<open>k\<close> lines were written (the disk is full).
\<close>

datatype fault = NoFault | FailOpen | FailAfter nat

fun first_lines :: "nat \<Rightarrow> csv \<Rightarrow> csv" where
  "first_lines 0 f = []"
| "first_lines (Suc k) f = map (\<lambda>(c, flds). (c, take k flds)) f"

text \<open>
  \<open>save_data\<close>: the cache is cleared after the write, so not when the write raises.
\<close>

definition save_data :: "codec \<Rightarrow> fault \<Rightarrow> frame \<Rightarrow> string \<Rightarrow> storage \<Rightarrow> (error + unit) \<times> storage" where
  "save_data cd flt df path st =
     (case flt of
        FailOpen \<Rightarrow> (Inl PermissionError, st)
      | FailAfter k \<Rightarrow>
          (Inl OSError, st\<lparr>files := (files st)(path \<mapsto> first_lines k (to_csv cd df))\<rparr>)
      | NoFault \<Rightarrow>
          (Inr (), st\<lparr>files := (files st)(path \<mapsto> to_csv cd df), cache := Map.empty\<rparr>))"

section \<open>Creating a record\<close>

text \<open>
  The plans of \<open>DEFAULT_SUBS\<close> with their durations; the custom plan has none and takes
  the number entered in the form (at least 1, by the widget).
\<close>

datatype plan = Mensuel | Trimestriel | Semestriel | Annuel | Personnalise

fun DEFAULT_SUBS :: "plan \<Rightarrow> int option" where
  "DEFAULT_SUBS Mensuel = Some 30"
| "DEFAULT_SUBS Trimestriel = Some 90"
| "DEFAULT_SUBS Semestriel = Some 180"
| "DEFAULT_SUBS Annuel = Some 365"
| "DEFAULT_SUBS Personnalise = None"

text \<open>The label of a plan (the last one without its accent and ellipsis).\<close>

fun plan_label :: "plan \<Rightarrow> string" where
  "plan_label Mensuel = ''Mensuel (30j)''"
| "plan_label Trimestriel = ''Trimestriel (90j)''"
| "plan_label Semestriel = ''Semestriel (180j)''"
| "plan_label Annuel = ''Annuel (365j)''"
| "plan_label Personnalise = ''Personnalise...''"

record form =
  abo_choice :: plan
  custom_days :: int
  nom :: string
  tel :: string
  montant :: real
  debut :: date
  rem :: string

definition duree :: "form \<Rightarrow> int" where
  "duree f =
     (case DEFAULT_SUBS (abo_choice f) of
        Some d \<Rightarrow> if d \<noteq> 0 then d else custom_days f
      | None \<Rightarrow> custom_days f)"

text \<open>The one-row frame of the new record; \<open>new_id\<close> is what \<open>gen_id()\<close> returned.\<close>

definition new_row :: "string \<Rightarrow> form \<Rightarrow> frame" where
  "new_row new_id f =
     [(''ID'', [Str new_id]),
      (''Nom'', [Str (strip (nom f))]),
      (''Telephone'', [Str (strip (tel f))]),
      (''Abonnement'', [Str (plan_label (abo_choice f))]),
      (''DureeJours'', [IntC (duree f)]),
      (''Montant'', [FloatC (montant f)]),
      (''Debut'', [Stamp (to_datetime (debut f))]),
      (''Expiration'', [Stamp (to_datetime (debut f) + timedelta_days (duree f))]),
      (''Remarques'', [Str (strip (rem f))])]"

text \<open>
  The handler of the button: the result says what happened, with the frame \<open>df\<close> and
  the storage as they are then.
\<close>

datatype outcome = Rejected | Added | Raised error

definition enregistrer ::
  "codec \<Rightarrow> fault \<Rightarrow> string \<Rightarrow> form \<Rightarrow> frame \<Rightarrow> storage \<Rightarrow> outcome \<times> frame \<times> storage" where
  "enregistrer cd flt new_id f df st =
     (if strip (nom f) = [] then (Rejected, df, st)
      else
        (let df' = pd_concat df (new_row new_id f)
         in case save_data cd flt df' DATA_PATH st of
              (Inl e, st') \<Rightarrow> (Raised e, df', st')
            | (Inr u, st') \<Rightarrow> (Added, df', st')))"

section \<open>Example data\<close>

text \<open>
  Two records of January 2024 (2024-01-01 is day 738886): thirty days from the 1st, paid
  1000, and ninety days from the 15th, paid 1500.
\<close>

definition example_frame :: frame where
  "example_frame =
     [(''ID'', [Str ''a1'', Str ''a2'']),
      (''Nom'', [Str ''Ali'', Str ''Nadia'']),
      (''Telephone'', [Str ''0550'', Str []]),
      (''Abonnement'', [Str ''Mensuel (30j)'', Str ''Trimestriel (90j)'']),
      (''DureeJours'', [IntC 30, IntC 90]),
      (''Montant'', [FloatC 1000, FloatC 1500]),
      (''Debut'', [Stamp (to_datetime 738886), Stamp (to_datetime 738900)]),
      (''Expiration'', [Stamp (to_datetime 738916), Stamp (to_datetime 738990)]),
      (''Remarques'', [Str [], Str []])]"

definition example_form :: form where
  "example_form = \<lparr>abo_choice = Mensuel, custom_days = 30, nom = ''Ali'', tel = [],
     montant = 1000, debut = 738886, rem = []\<rparr>"

definition blank_form :: form where
  "blank_form = example_form\<lparr>nom := ''  ''\<rparr>"

text \<open>
  An example of a codec: a date column is read from fields of the form \<open>YYYY-MM-DD\<close>,
  every other field that is not empty is read as text, and the cells that are not text
  are written as a question mark.
\<close>

definition decimal :: "string \<Rightarrow> int" where
  "decimal s = foldl (\<lambda>a c. 10 * a + (int (of_char c) - 48)) 0 s"

definition iso_date :: "string \<Rightarrow> cell" where
  "iso_date s =
     (if length s = 10 \<and> s ! 4 = CHR ''-'' \<and> s ! 7 = CHR ''-''
      then Stamp (to_datetime (ymd2ord (decimal (take 4 s)) (decimal (take 2 (drop 5 s)))
                                 (decimal (drop 8 s))))
      else Str s)"

definition text_codec :: codec where
  "text_codec = \<lparr>fmt = (\<lambda>c. ''?''), na_values = [],
     conv = (\<lambda>flds. Str), conv_date = (\<lambda>flds. iso_date)\<rparr>"

definition example_file :: csv where
  "example_file =
     [(''ID'', [''a1'']), (''Nom'', [''Ali'']), (''DureeJours'', [''30'']),
      (''Debut'', [''2024-01-01'']), (''Expiration'', [''2024-01-31''])]"

text \<open>The storage of a first run (no file, nothing cached) and one with a file.\<close>

definition first_run :: storage where
  "first_run = \<lparr>files = Map.empty, cache = Map.empty\<rparr>"

definition example_storage :: storage where
  "example_storage = \<lparr>files = [DATA_PATH \<mapsto> example_file], cache = Map.empty\<rparr>"

section \<open>Properties of the status engine\<close>

text \<open>
  C1. \<open>status_for\<close> is the three-way rule: \<open>Expire\<close> when the expiration date is before
  today, otherwise \<open>Bientot\<close> when it is at most \<open>warn_days\<close> days after today, otherwise
  \<open>Actif\<close>. On the expiration day itself the status is never \<open>Expire\<close>, and it is
  \<open>Bientot\<close> for every warning window of zero or more days (the slider gives 1 to 30).
\<close>

theorem status_for_three_way:
  "(exp_date < today \<longrightarrow> status_for exp_date warn_days today = Expire)
   \<and> (\<not> exp_date < today \<and> exp_date \<le> today + warn_days
        \<longrightarrow> status_for exp_date warn_days today = Bientot)
   \<and> (\<not> exp_date < today \<and> \<not> exp_date \<le> today + warn_days
        \<longrightarrow> status_for exp_date warn_days today = Actif)
   \<and> status_for today warn_days today \<noteq> Expire
   \<and> (0 \<le> warn_days \<longrightarrow> status_for today warn_days today = Bientot)"
  by (simp add: status_for_def)

theorem status_for_three_way_witness:
  "status_for 738915 7 738916 = Expire
   \<and> status_for 738920 7 738916 = Bientot
   \<and> status_for 738930 7 738916 = Actif
   \<and> status_for 738916 7 738916 = Bientot"
  using status_for_three_way [of 738915 738916 7]
    status_for_three_way [of 738920 738916 7]
    status_for_three_way [of 738930 738916 7]
    status_for_three_way [of 738916 738916 7]
  by simp

subsection \<open>The annotated frame\<close>

lemma dt_date_col_stamps: "dt_date_col (map Stamp ts) = Inr (map dt_date ts)"
  by (induction ts) simp_all

lemma df_with_status_empty:
  "df_empty (objs h df) \<Longrightarrow>
   df_with_status h df warn_days today = (Inr (fresh h), snd (df_copy h df))"
  by (simp add: df_with_status_def df_copy_def)

lemma df_with_status_stamps:
  assumes "\<not> df_empty (objs h df)"
    and "map_of (objs h df) ''Expiration'' = Some (map Stamp ts)"
  shows "df_with_status h df warn_days today =
     (Inr (fresh h),
      setitem (setitem (snd (df_copy h df)) (fresh h) ''Statut''
                 (map (\<lambda>t. Stat (status_for (dt_date t) warn_days today)) ts))
        (fresh h) ''JoursRestants'' (map (\<lambda>t. IntC (dt_date t - today)) ts))"
  using assms
  by (simp add: df_with_status_def df_copy_def getitem_def setitem_def update_conv'
      dt_date_col_stamps comp_def)

lemma df_with_status_frame:
  "r \<noteq> fresh h \<Longrightarrow> objs (snd (df_with_status h df warn_days today)) r = objs h r"
  by (simp add: df_with_status_def df_copy_def setitem_def Let_def
      split: sum.splits)

lemma example_dates:
  "dt_date (to_datetime 738916) = 738916" "dt_date (to_datetime 738990) = 738990"
  by (simp_all add: dt_date_def to_datetime_def epoch_ordinal_def ns_per_day_def)

lemma example_frame_not_empty: "\<not> df_empty example_frame"
  by (simp add: df_empty_def nrows_def example_frame_def)

lemma df_empty_empty_frame: "df_empty empty_frame"
  by (simp add: df_empty_def empty_frame_def column_names_def nrows_def)

text \<open>
  C2. On a frame with rows whose column \<open>Expiration\<close> holds the timestamps \<open>ts\<close>,
  \<open>df_with_status\<close> returns the copy with the column \<open>JoursRestants\<close> holding, for each
  record, the signed number of days from today to the date of its expiration: a day
  later each number is one less, and it is negative exactly when the status is
  \<open>Expire\<close>. On an empty frame it returns the copy, which is the empty frame, and no error.
\<close>

theorem df_with_status_days_remaining:
  "(df_empty (objs h df) \<longrightarrow>
      fst (df_with_status h df warn_days today) = Inr (fresh h)
      \<and> objs (snd (df_with_status h df warn_days today)) (fresh h) = objs h df)
   \<and> (\<not> df_empty (objs h df) \<and> map_of (objs h df) ''Expiration'' = Some (map Stamp ts) \<longrightarrow>
      fst (df_with_status h df warn_days today) = Inr (fresh h)
      \<and> map_of (objs (snd (df_with_status h df warn_days today)) (fresh h)) ''JoursRestants''
          = Some (map (\<lambda>t. IntC (dt_date t - today)) ts)
      \<and> map_of (objs (snd (df_with_status h df warn_days (today + 1))) (fresh h)) ''JoursRestants''
          = Some (map (\<lambda>t. IntC (dt_date t - today - 1)) ts)
      \<and> map_of (objs (snd (df_with_status h df warn_days today)) (fresh h)) ''Statut''
          = Some (map (\<lambda>t. Stat (status_for (dt_date t) warn_days today)) ts)
      \<and> list_all (\<lambda>t. (dt_date t - today < 0)
                       = (status_for (dt_date t) warn_days today = Expire)) ts)"
proof (intro conjI impI)
  assume e: "df_empty (objs h df)"
  show "fst (df_with_status h df warn_days today) = Inr (fresh h)"
    by (simp add: df_with_status_empty [OF e])
  show "objs (snd (df_with_status h df warn_days today)) (fresh h) = objs h df"
    by (simp add: df_with_status_empty [OF e] df_copy_def)
next
  assume a: "\<not> df_empty (objs h df) \<and> map_of (objs h df) ''Expiration'' = Some (map Stamp ts)"
  note s = df_with_status_stamps [OF conjunct1 [OF a] conjunct2 [OF a]]
  show "fst (df_with_status h df warn_days today) = Inr (fresh h)"
    by (simp add: s)
  show "map_of (objs (snd (df_with_status h df warn_days today)) (fresh h)) ''JoursRestants''
          = Some (map (\<lambda>t. IntC (dt_date t - today)) ts)"
    by (simp add: s setitem_def update_conv')
  show "map_of (objs (snd (df_with_status h df warn_days (today + 1))) (fresh h)) ''JoursRestants''
          = Some (map (\<lambda>t. IntC (dt_date t - today - 1)) ts)"
    by (simp add: s setitem_def update_conv' algebra_simps)
  show "map_of (objs (snd (df_with_status h df warn_days today)) (fresh h)) ''Statut''
          = Some (map (\<lambda>t. Stat (status_for (dt_date t) warn_days today)) ts)"
    by (simp add: s setitem_def update_conv')
  show "list_all (\<lambda>t. (dt_date t - today < 0)
                       = (status_for (dt_date t) warn_days today = Expire)) ts"
    by (simp add: list_all_iff status_for_def)
qed

theorem df_with_status_days_remaining_witness:
  "fst (df_with_status (single example_frame) 0 7 738916) = Inr 1
   \<and> map_of (objs (snd (df_with_status (single example_frame) 0 7 738916)) 1) ''JoursRestants''
       = Some [IntC 0, IntC 74]
   \<and> map_of (objs (snd (df_with_status (single example_frame) 0 7 738917)) 1) ''JoursRestants''
       = Some [IntC (- 1), IntC 73]
   \<and> map_of (objs (snd (df_with_status (single example_frame) 0 7 738916)) 1) ''Statut''
       = Some [Stat Bientot, Stat Actif]
   \<and> fst (df_with_status (single empty_frame) 0 7 738916) = Inr 1
   \<and> objs (snd (df_with_status (single empty_frame) 0 7 738916)) 1 = empty_frame"
proof -
  have m: "map_of (objs (single example_frame) 0) ''Expiration''
      = Some (map Stamp [to_datetime 738916, to_datetime 738990])"
    by (simp add: single_def example_frame_def)
  have n: "\<not> df_empty (objs (single example_frame) 0)"
    by (simp add: single_def example_frame_not_empty)
  have e: "df_empty (objs (single empty_frame) 0)"
    by (simp add: single_def df_empty_empty_frame)
  have f: "fresh (single example_frame) = 1" "fresh (single empty_frame) = 1"
    "objs (single empty_frame) 0 = empty_frame"
    by (simp_all add: single_def)
  show ?thesis
    using df_with_status_days_remaining
        [of "single example_frame" 0 7 738916 "[to_datetime 738916, to_datetime 738990]"]
      df_with_status_days_remaining [of "single empty_frame" 0 7 738916 "[]"]
      m n e
    by (simp add: f example_dates status_for_def)
qed

text \<open>
  C10. \<open>df_with_status\<close> leaves every frame that exists when it is called as it was, the
  frame it is given among them: no column is added to it and no cell changed, whether the
  call returns or raises. The columns are set on the copy, at a new reference.
\<close>

theorem df_with_status_input_unchanged:
  "r < fresh h \<Longrightarrow> objs (snd (df_with_status h df warn_days today)) r = objs h r"
  by (simp add: df_with_status_frame)

theorem df_with_status_input_unchanged_witness:
  "0 < fresh (single example_frame)
   \<and> objs (snd (df_with_status (single example_frame) 0 7 738916)) 0 = example_frame"
proof -
  have f: "0 < fresh (single example_frame)" "objs (single example_frame) 0 = example_frame"
    by (simp_all add: single_def)
  show ?thesis
    using df_with_status_input_unchanged [of 0 "single example_frame" 0 7 738916] f
    by simp
qed

section \<open>Properties of the aggregation\<close>

lemma df_status_of_empty_frame: "df_status_of empty_frame warn_days today = Inr empty_frame"
proof -
  have "df_empty (objs (single empty_frame) 0)"
    by (simp add: single_def df_empty_empty_frame)
  then show ?thesis
    by (simp add: df_status_of_def df_with_status_empty df_copy_def single_def)
qed

text \<open>
  C3. With no file the store is the empty frame of nine columns. \<open>df_with_status\<close> returns
  its copy before the column \<open>Statut\<close> is added, and the metrics, which read that column
  whether or not there are rows, raise \<open>KeyError\<close>: they do not return zero counts.
\<close>

theorem status_metrics_empty_store:
  "fst (load_data cd DATA_PATH first_run) = Inr empty_frame
   \<and> df_status_of empty_frame warn_days today = Inr empty_frame
   \<and> status_metrics empty_frame = Inl (KeyError ''Statut'')"
proof (intro conjI)
  show "fst (load_data cd DATA_PATH first_run) = Inr empty_frame"
    by (simp add: load_data_def first_run_def)
  show "df_status_of empty_frame warn_days today = Inr empty_frame"
    by (rule df_status_of_empty_frame)
  show "status_metrics empty_frame = Inl (KeyError ''Statut'')"
    by (simp add: status_metrics_def getitem_def empty_frame_def column_names_def)
qed

subsection \<open>Groups and their sums\<close>

lemma keys_add_group: "fst ` set (add_group k v gs) = insert k (fst ` set gs)"
proof (induction gs)
  case Nil
  then show ?case by simp
next
  case (Cons g gs)
  obtain j t where g: "g = (j, t)" by (cases g)
  show ?case
    using Cons by (simp add: g insert_commute)
qed

lemma sorted_add_group:
  "sorted_wrt (<) (map fst gs) \<Longrightarrow> sorted_wrt (<) (map fst (add_group k v gs))"
proof (induction gs)
  case Nil
  then show ?case by simp
next
  case (Cons g gs)
  obtain j t where g: "g = (j, t)" by (cases g)
  have "\<forall>x \<in> fst ` set (add_group k v gs). j < x" if "j < k"
    using Cons.prems that by (auto simp: keys_add_group g)
  then show ?case
    using Cons by (auto simp: g)
qed

lemma map_of_add_group:
  "sorted_wrt (<) (map fst gs) \<Longrightarrow>
   map_of (add_group k v gs) k' =
     (if k' = k then Some (case map_of gs k of None \<Rightarrow> v | Some t \<Rightarrow> t + v) else map_of gs k')"
proof (induction gs)
  case Nil
  then show ?case by simp
next
  case (Cons g gs)
  obtain j t where g: "g = (j, t)" by (cases g)
  have none: "map_of gs k = None" if "k < j"
  proof -
    have "k \<notin> fst ` set gs" using Cons.prems that by (auto simp: g)
    then show ?thesis by (simp add: map_of_eq_None_iff)
  qed
  show ?case
    using Cons none by (auto simp: g)
qed

lemma groupby_sum_snoc: "groupby_sum (rows @ [(k, v)]) = add_group k v (groupby_sum rows)"
  by (simp add: groupby_sum_def)

lemma sorted_groupby_sum: "sorted_wrt (<) (map fst (groupby_sum rows))"
proof (induction rows rule: rev_induct)
  case Nil
  then show ?case by (simp add: groupby_sum_def)
next
  case (snoc r rows)
  then show ?case by (cases r) (simp add: groupby_sum_snoc sorted_add_group)
qed

lemma keys_groupby_sum: "fst ` set (groupby_sum rows) = fst ` set rows"
proof (induction rows rule: rev_induct)
  case Nil
  then show ?case by (simp add: groupby_sum_def)
next
  case (snoc r rows)
  then show ?case by (cases r) (simp add: groupby_sum_snoc keys_add_group)
qed

lemma map_of_groupby_sum:
  "map_of (groupby_sum rows) k =
     (if k \<in> fst ` set rows then Some (sum_list (map snd (filter (\<lambda>r. fst r = k) rows)))
      else None)"
proof (induction rows rule: rev_induct)
  case Nil
  then show ?case by (simp add: groupby_sum_def)
next
  case (snoc r rows)
  obtain j v where r: "r = (j, v)" by (cases r)
  have empty: "filter (\<lambda>r. fst r = j) rows = []" if "j \<notin> fst ` set rows"
    using that by (auto simp: filter_empty_conv)
  show ?case
  proof (cases "k = j")
    case True
    show ?thesis
    proof (cases "j \<in> fst ` set rows")
      case True
      with snoc \<open>k = j\<close> show ?thesis
        by (simp add: r groupby_sum_snoc map_of_add_group [OF sorted_groupby_sum])
    next
      case False
      with snoc \<open>k = j\<close> empty show ?thesis
        by (simp add: r groupby_sum_snoc map_of_add_group [OF sorted_groupby_sum])
    qed
  next
    case False
    with snoc show ?thesis
      by (simp add: r groupby_sum_snoc map_of_add_group [OF sorted_groupby_sum])
  qed
qed

lemma total_groupby_sum:
  assumes "(k, t) \<in> set (groupby_sum rows)"
  shows "t = sum_list (map snd (filter (\<lambda>r. fst r = k) rows))"
proof -
  have "distinct (map fst (groupby_sum rows))"
    using sorted_groupby_sum [of rows] by (simp add: strict_sorted_iff)
  then have "map_of (groupby_sum rows) k = Some t"
    using assms by simp
  then show ?thesis
    by (simp add: map_of_groupby_sum split: if_splits)
qed

subsection \<open>The first day of the month\<close>

lemma days_before_year_cycles:
  assumes "0 \<le> b" "b < 4" "0 \<le> c" "c < 25" "0 \<le> e" "e < 4"
  shows "days_before_year (400 * a + 100 * b + 4 * c + e + 1)
     = 146097 * a + 36524 * b + 1461 * c + 365 * e"
proof -
  let ?y = "400 * a + 100 * b + 4 * c + e"
  have 4: "?y div 4 = 100 * a + 25 * b + c"
    by (rule int_div_pos_eq [where r = e]) (use assms in simp_all)
  have 100: "?y div 100 = 4 * a + b"
    by (rule int_div_pos_eq [where r = "4 * c + e"]) (use assms in simp_all)
  have 400: "?y div 400 = a"
    by (rule int_div_pos_eq [where r = "100 * b + 4 * c + e"]) (use assms in simp_all)
  show ?thesis
    by (simp add: days_before_year_def 4 100 400)
qed

lemma is_leap_cycles:
  assumes "0 \<le> b" "b < 4" "0 \<le> c" "c < 25" "0 \<le> e" "e < 4"
  shows "is_leap (400 * a + 100 * b + 4 * c + e + 1) \<longleftrightarrow> e = 3 \<and> (c \<noteq> 24 \<or> b = 3)"
proof -
  let ?y = "400 * a + 100 * b + 4 * c + e + 1"
  show ?thesis
  proof (cases "e = 3")
    case True
    have m4: "?y mod 4 = 0"
      by (rule int_mod_pos_eq [where q = "100 * a + 25 * b + c + 1"]) (use True in simp_all)
    show ?thesis
    proof (cases "c = 24")
      case c24: True
      have m100: "?y mod 100 = 0"
        by (rule int_mod_pos_eq [where q = "4 * a + b + 1"]) (use True c24 in simp_all)
      show ?thesis
      proof (cases "b = 3")
        case b3: True
        have "?y mod 400 = 0"
          by (rule int_mod_pos_eq [where q = "a + 1"]) (use True c24 b3 in simp_all)
        then show ?thesis using True c24 b3 m4 by (simp add: is_leap_def)
      next
        case False
        have "?y mod 400 = 100 * b + 100"
          by (rule int_mod_pos_eq [where q = a]) (use True c24 False assms in simp_all)
        then show ?thesis using True c24 False m4 m100 assms by (simp add: is_leap_def)
      qed
    next
      case False
      have "?y mod 100 = 4 * c + 4"
        by (rule int_mod_pos_eq [where q = "4 * a + b"]) (use True False assms in simp_all)
      then show ?thesis using True False m4 assms by (simp add: is_leap_def)
    qed
  next
    case False
    have "?y mod 4 = e + 1"
      by (rule int_mod_pos_eq [where q = "100 * a + 25 * b + c"]) (use False assms in simp_all)
    then show ?thesis using False assms by (simp add: is_leap_def)
  qed
qed

lemma month_of_offset_ok:
  assumes "0 \<le> r" "r < 365"
  shows "1 \<le> fst (month_of_offset r leap) \<and> fst (month_of_offset r leap) \<le> 12
     \<and> 1 \<le> snd (month_of_offset r leap) \<and> snd (month_of_offset r leap) \<le> 31
     \<and> DAYS_BEFORE_MONTH (fst (month_of_offset r leap))
         + (if fst (month_of_offset r leap) > 2 \<and> leap then 1 else 0)
         + snd (month_of_offset r leap) = r + 1"
proof -
  define m where "m = (r + 50) div 32"
  have lo: "32 * m \<le> r + 50" and hi: "r + 50 < 32 * m + 32"
    unfolding m_def by (simp_all add: zdiv_mono1 algebra_simps)
  have "1 \<le> m" "m \<le> 12" using lo hi assms by simp_all
  then consider "m = 1" | "m = 2" | "m = 3" | "m = 4" | "m = 5" | "m = 6" | "m = 7"
    | "m = 8" | "m = 9" | "m = 10" | "m = 11" | "m = 12"
    by atomize_elim presburger
  then show ?thesis
  proof cases
    case 1 with lo hi assms show ?thesis
      unfolding month_of_offset_def m_def [symmetric]
      by (simp add: DAYS_BEFORE_MONTH_def DAYS_IN_MONTH_def Let_def)
  next
    case 2 with lo hi assms show ?thesis
      unfolding month_of_offset_def m_def [symmetric]
      by (simp add: DAYS_BEFORE_MONTH_def DAYS_IN_MONTH_def Let_def)
  next
    case 3 with lo hi assms show ?thesis
      unfolding month_of_offset_def m_def [symmetric]
      by (simp add: DAYS_BEFORE_MONTH_def DAYS_IN_MONTH_def Let_def)
  next
    case 4 with lo hi assms show ?thesis
      unfolding month_of_offset_def m_def [symmetric]
      by (simp add: DAYS_BEFORE_MONTH_def DAYS_IN_MONTH_def Let_def)
  next
    case 5 with lo hi assms show ?thesis
      unfolding month_of_offset_def m_def [symmetric]
      by (simp add: DAYS_BEFORE_MONTH_def DAYS_IN_MONTH_def Let_def)
  next
    case 6 with lo hi assms show ?thesis
      unfolding month_of_offset_def m_def [symmetric]
      by (simp add: DAYS_BEFORE_MONTH_def DAYS_IN_MONTH_def Let_def)
  next
    case 7 with lo hi assms show ?thesis
      unfolding month_of_offset_def m_def [symmetric]
      by (simp add: DAYS_BEFORE_MONTH_def DAYS_IN_MONTH_def Let_def)
  next
    case 8 with lo hi assms show ?thesis
      unfolding month_of_offset_def m_def [symmetric]
      by (simp add: DAYS_BEFORE_MONTH_def DAYS_IN_MONTH_def Let_def)
  next
    case 9 with lo hi assms show ?thesis
      unfolding month_of_offset_def m_def [symmetric]
      by (simp add: DAYS_BEFORE_MONTH_def DAYS_IN_MONTH_def Let_def)
  next
    case 10 with lo hi assms show ?thesis
      unfolding month_of_offset_def m_def [symmetric]
      by (simp add: DAYS_BEFORE_MONTH_def DAYS_IN_MONTH_def Let_def)
  next
    case 11 with lo hi assms show ?thesis
      unfolding month_of_offset_def m_def [symmetric]
      by (simp add: DAYS_BEFORE_MONTH_def DAYS_IN_MONTH_def Let_def)
  next
    case 12 with lo hi assms show ?thesis
      unfolding month_of_offset_def m_def [symmetric]
      by (simp add: DAYS_BEFORE_MONTH_def DAYS_IN_MONTH_def Let_def)
  qed
qed

lemma ord2ymd_cycles:
  fixes n :: int
  assumes "a = (n - 1) div 146097" "r = (n - 1) mod 146097" "b = r div 36524"
    "r2 = r mod 36524" "c = r2 div 1461" "r3 = r2 mod 1461" "e = r3 div 365" "r4 = r3 mod 365"
  shows "ord2ymd n =
     (if e = 4 \<or> b = 4 then (400 * a + 100 * b + 4 * c + e, 12, 31)
      else case month_of_offset r4 (e = 3 \<and> (c \<noteq> 24 \<or> b = 3)) of
             (month, day) \<Rightarrow> (400 * a + 100 * b + 4 * c + e + 1, month, day))"
  unfolding ord2ymd_def Let_def assms [symmetric]
  by (simp add: algebra_simps)

text \<open>
  The year, month and day computed for an ordinal are those of that ordinal: converting
  them back gives it again.
\<close>

lemma ymd2ord_ord2ymd:
  "case ord2ymd n of (y, m, d) \<Rightarrow>
     ymd2ord y m d = n \<and> 1 \<le> m \<and> m \<le> 12 \<and> 1 \<le> d \<and> d \<le> 31"
proof -
  define a where "a = (n - 1) div 146097"
  define r where "r = (n - 1) mod 146097"
  define b where "b = r div 36524"
  define r2 where "r2 = r mod 36524"
  define c where "c = r2 div 1461"
  define r3 where "r3 = r2 mod 1461"
  define e where "e = r3 div 365"
  define r4 where "r4 = r3 mod 365"
  have n: "n = 146097 * a + r + 1" and r: "0 \<le> r" "r < 146097"
    by (simp_all add: a_def r_def)
  have r': "r = 36524 * b + r2" and r2: "0 \<le> r2" "r2 < 36524"
    by (simp_all add: b_def r2_def)
  have r2': "r2 = 1461 * c + r3" and r3: "0 \<le> r3" "r3 < 1461"
    by (simp_all add: c_def r3_def)
  have r3': "r3 = 365 * e + r4" and r4: "0 \<le> r4" "r4 < 365"
    by (simp_all add: e_def r4_def)
  have b: "0 \<le> b" "b \<le> 4" using r r' r2 by linarith+
  have c: "0 \<le> c" "c < 25" using r2 r2' r3 by linarith+
  have e: "0 \<le> e" "e \<le> 4" using r3 r3' r4 by linarith+
  note o = ord2ymd_cycles [OF a_def r_def b_def r2_def c_def r3_def e_def r4_def]
  show ?thesis
  proof (cases "b = 4")
    case True
    have z: "r2 = 0" "c = 0" "r3 = 0" "e = 0"
      using True r r' r2 r2' r3 r3' r4 c e by linarith+
    have y: "400 * a + 100 * b + 4 * c + e = 400 * a + 100 * 3 + 4 * 24 + 3 + 1"
      using True z by linarith
    have d: "days_before_year (400 * a + 100 * 3 + 4 * 24 + 3 + 1)
        = 146097 * a + 36524 * 3 + 1461 * 24 + 365 * 3"
      by (rule days_before_year_cycles) simp_all
    have l: "is_leap (400 * a + 100 * 3 + 4 * 24 + 3 + 1)"
      using is_leap_cycles [of 3 24 3 a] by simp
    have m: "days_before_month (400 * a + 100 * 3 + 4 * 24 + 3 + 1) 12 = 335"
      using l by (simp add: days_before_month_def DAYS_BEFORE_MONTH_def)
    have "ymd2ord (400 * a + 100 * b + 4 * c + e) 12 31 = n"
      unfolding y ymd2ord_def d m using n r' True z by linarith
    then show ?thesis
      unfolding o using True by simp
  next
    case b4: False
    then have b3: "b < 4" using b by simp
    show ?thesis
    proof (cases "e = 4")
      case True
      have r40: "r4 = 0" using True r3 r3' r4 by linarith
      have c24: "c < 24" using True r2 r2' r3' r4 by linarith
      have y: "400 * a + 100 * b + 4 * c + e = 400 * a + 100 * b + 4 * c + 3 + 1"
        using True by linarith
      have d: "days_before_year (400 * a + 100 * b + 4 * c + 3 + 1)
          = 146097 * a + 36524 * b + 1461 * c + 365 * 3"
        by (rule days_before_year_cycles) (use b b3 c in simp_all)
      have l: "is_leap (400 * a + 100 * b + 4 * c + 3 + 1)"
        using is_leap_cycles [of b c 3 a] b b3 c c24 by simp
      have m: "days_before_month (400 * a + 100 * b + 4 * c + 3 + 1) 12 = 335"
        using l by (simp add: days_before_month_def DAYS_BEFORE_MONTH_def)
      have "ymd2ord (400 * a + 100 * b + 4 * c + e) 12 31 = n"
        unfolding y ymd2ord_def d m using n r' r2' r3' True r40 by linarith
      then show ?thesis
        unfolding o using True by simp
    next
      case False
      then have e3: "e < 4" using e by simp
      define leap where "leap \<longleftrightarrow> e = 3 \<and> (c \<noteq> 24 \<or> b = 3)"
      let ?y = "400 * a + 100 * b + 4 * c + e + 1"
      obtain m d where md: "month_of_offset r4 leap = (m, d)"
        by (cases "month_of_offset r4 leap")
      from month_of_offset_ok [OF r4, of leap]
      have k: "1 \<le> m" "m \<le> 12" "1 \<le> d" "d \<le> 31"
        and s: "DAYS_BEFORE_MONTH m + (if m > 2 \<and> leap then 1 else 0) + d = r4 + 1"
        unfolding md by simp_all
      have dy: "days_before_year ?y = 146097 * a + 36524 * b + 1461 * c + 365 * e"
        by (rule days_before_year_cycles) (use b b3 c e e3 in simp_all)
      have l: "is_leap ?y \<longleftrightarrow> leap"
        unfolding leap_def by (rule is_leap_cycles) (use b b3 c e e3 in simp_all)
      have "ymd2ord ?y m d = n"
        unfolding ymd2ord_def days_before_month_def dy l
        using s n r' r2' r3' by linarith
      then show ?thesis
        unfolding o leap_def [symmetric] md using False b4 k by simp
    qed
  qed
qed

text \<open>
  So the month start of a timestamp is midnight of the day that lies as many days before
  its date as the day of the month is after the 1st.
\<close>

lemma month_start_first_day:
  "case ord2ymd (dt_date t) of (y, m, d) \<Rightarrow>
     1 \<le> d \<and> d \<le> 31 \<and> month_start t = to_datetime (dt_date t - (d - 1))"
proof -
  obtain y m d where o: "ord2ymd (dt_date t) = (y, m, d)"
    by (cases "ord2ymd (dt_date t)")
  from ymd2ord_ord2ymd [of "dt_date t"]
  have k: "ymd2ord y m d = dt_date t" "1 \<le> d" "d \<le> 31"
    unfolding o by simp_all
  have "ymd2ord y m 1 = ymd2ord y m d - (d - 1)"
    by (simp add: ymd2ord_def)
  then have "month_start t = to_datetime (dt_date t - (d - 1))"
    by (simp add: month_start_def o k)
  then show ?thesis
    using k by (simp add: o)
qed

lemma month_start_le: "month_start t \<le> t"
proof -
  obtain y m d where o: "ord2ymd (dt_date t) = (y, m, d)"
    by (cases "ord2ymd (dt_date t)")
  from month_start_first_day [of t]
  have d: "1 \<le> d" and m: "month_start t = to_datetime (dt_date t - (d - 1))"
    unfolding o by simp_all
  have "to_datetime (dt_date t - (d - 1)) \<le> to_datetime (dt_date t)"
    using d by (simp add: to_datetime_def ns_per_day_def)
  also have "to_datetime (dt_date t) = t div ns_per_day * ns_per_day"
    by (simp add: to_datetime_def dt_date_def)
  also have "\<dots> \<le> t"
    by (simp add: ns_per_day_def)
  finally show ?thesis
    using m by simp
qed

lemma month_col_stamps: "month_col (map Stamp ds) = Inr (map month_start ds)"
  by (induction ds) simp_all

lemma revenue_by_month_eq:
  assumes "map_of df ''Debut'' = Some (map Stamp ds)"
    and "map_of df ''Montant'' = Some am" and "amounts am = Inr vs"
  shows "revenue_by_month df =
     Inr (groupby_sum (zip (map month_start ds) vs),
          AList.update ''Mois'' (map Stamp (map month_start ds)) df)"
  using assms
  by (simp add: revenue_by_month_def getitem_def month_col_stamps update_conv')

lemma example_months:
  "month_start (to_datetime 738886) = to_datetime 738886"
  "month_start (to_datetime 738900) = to_datetime 738886"
  by (simp_all add: month_start_def dt_date_def to_datetime_def epoch_ordinal_def
      ns_per_day_def ord2ymd_def month_of_offset_def ymd2ord_def days_before_year_def
      days_before_month_def
      DAYS_BEFORE_MONTH_def DAYS_IN_MONTH_def is_leap_def Let_def)

text \<open>
  C7. On a frame whose column \<open>Debut\<close> holds the timestamps \<open>ds\<close> and whose amounts are
  \<open>vs\<close>, the revenue table has one row for each month start of a start date, in
  ascending order of the month, and its total is the sum of the amounts of the records
  that start in that month. The month start of a start date is midnight of the first
  day of its month: not after the start, and before its date by the day of the month
  less one. Two records of one month paid 1000 and 1500 give the single row of that
  month with 2500.
\<close>

theorem revenue_by_month_groups:
  assumes "map_of df ''Debut'' = Some (map Stamp ds)"
    and "map_of df ''Montant'' = Some am" and "amounts am = Inr vs"
    and "length ds = length vs"
  shows "\<exists>table df'. revenue_by_month df = Inr (table, df')
     \<and> sorted_wrt (<) (map fst table)
     \<and> fst ` set table = month_start ` set ds
     \<and> (\<forall>(m, total) \<in> set table.
          total = sum_list (map snd (filter (\<lambda>(d, v). month_start d = m) (zip ds vs))))
     \<and> list_all (\<lambda>t. month_start t \<le> t
          \<and> (case ord2ymd (dt_date t) of (y, m, d) \<Rightarrow>
                1 \<le> d \<and> d \<le> 31 \<and> month_start t = to_datetime (dt_date t - (d - 1)))) ds
     \<and> (\<forall>d1 d2. ds = [d1, d2] \<and> vs = [1000, 1500] \<and> month_start d1 = month_start d2
          \<longrightarrow> table = [(month_start d1, 2500)])"
proof -
  let ?rows = "zip (map month_start ds) vs"
  let ?table = "groupby_sum ?rows"
  have r: "revenue_by_month df =
      Inr (?table, AList.update ''Mois'' (map Stamp (map month_start ds)) df)"
    by (rule revenue_by_month_eq [OF assms(1-3)])
  have s: "sorted_wrt (<) (map fst ?table)"
    by (rule sorted_groupby_sum)
  have "fst ` set ?rows = set (map month_start ds)"
    using assms(4) by (simp flip: set_map)
  then have k: "fst ` set ?table = month_start ` set ds"
    by (simp add: keys_groupby_sum)
  have z: "?rows = map (\<lambda>(d, v). (month_start d, v)) (zip ds vs)"
    by (simp add: zip_map1)
  have t: "total = sum_list (map snd (filter (\<lambda>(d, v). month_start d = m) (zip ds vs)))"
    if "(m, total) \<in> set ?table" for m total
  proof -
    have "total = sum_list (map snd (filter (\<lambda>r. fst r = m) ?rows))"
      by (rule total_groupby_sum [OF that])
    also have "\<dots> = sum_list (map snd (filter (\<lambda>(d, v). month_start d = m) (zip ds vs)))"
      unfolding z by (simp add: filter_map comp_def split_def)
    finally show ?thesis .
  qed
  have e: "?table = [(month_start d1, 2500)]"
    if "ds = [d1, d2] \<and> vs = [1000, 1500] \<and> month_start d1 = month_start d2" for d1 d2
    using that by (simp add: groupby_sum_def)
  have f: "list_all (\<lambda>t. month_start t \<le> t
          \<and> (case ord2ymd (dt_date t) of (y, m, d) \<Rightarrow>
                1 \<le> d \<and> d \<le> 31 \<and> month_start t = to_datetime (dt_date t - (d - 1)))) ds"
    unfolding list_all_iff
  proof (intro ballI conjI)
    fix t
    show "month_start t \<le> t"
      by (rule month_start_le)
    show "case ord2ymd (dt_date t) of (y, m, d) \<Rightarrow>
        1 \<le> d \<and> d \<le> 31 \<and> month_start t = to_datetime (dt_date t - (d - 1))"
      by (rule month_start_first_day)
  qed
  show ?thesis
    using r s k t e f by blast
qed

theorem revenue_by_month_groups_witness:
  "\<exists>df'. revenue_by_month example_frame = Inr ([(to_datetime 738886, 2500)], df')"
proof -
  have d: "map_of example_frame ''Debut'' = Some (map Stamp [to_datetime 738886, to_datetime 738900])"
    by (simp add: example_frame_def)
  have m: "map_of example_frame ''Montant'' = Some [FloatC 1000, FloatC 1500]"
    by (simp add: example_frame_def)
  have a: "amounts [FloatC 1000, FloatC 1500] = Inr [1000, 1500]"
    by simp
  have l: "length [to_datetime 738886, to_datetime 738900] = length [1000, 1500 :: real]"
    by simp
  from revenue_by_month_groups [OF d m a l]
  obtain table df' where r: "revenue_by_month example_frame = Inr (table, df')"
    and e: "\<forall>d1 d2. [to_datetime 738886, to_datetime 738900] = [d1, d2]
          \<and> [1000, 1500 :: real] = [1000, 1500] \<and> month_start d1 = month_start d2
          \<longrightarrow> table = [(month_start d1, 2500)]"
    by blast
  from e have "table = [(to_datetime 738886, 2500)]"
    by (simp add: example_months)
  with r show ?thesis by blast
qed

section \<open>Properties of record creation and the store\<close>

subsection \<open>Columns through concatenation, writing and reading\<close>

lemma dt_date_to_datetime: "dt_date (to_datetime d + timedelta_days n) = d + n"
proof -
  have "to_datetime d + timedelta_days n = (d - epoch_ordinal + n) * ns_per_day"
    by (simp add: to_datetime_def timedelta_days_def algebra_simps)
  then show ?thesis
    by (simp add: dt_date_def ns_per_day_def)
qed

lemma map_of_pd_concat_left:
  assumes "map_of df1 c = Some s"
  shows "map_of (pd_concat df1 df2) c = Some (s @ column_or_nan df2 c)"
proof -
  have "map_of (map (\<lambda>(c, s). (c, s @ column_or_nan df2 c)) df1) c
      = Some (s @ column_or_nan df2 c)"
    using assms by (induction df1) (auto split: if_splits)
  then show ?thesis
    by (simp add: pd_concat_def)
qed

lemma columns_pd_concat:
  "fst ` set (pd_concat df1 df2) = fst ` set df1 \<union> fst ` set df2"
proof -
  have 1: "fst ` set (map (\<lambda>(c, s). (c, s @ column_or_nan df2 c)) df1) = fst ` set df1"
    by force
  have 2: "fst ` set (map (\<lambda>(c, s). (c, replicate (nrows df1) NaN @ s))
             (filter (\<lambda>(c, s). c \<notin> set (map fst df1)) df2))
        = fst ` set df2 - fst ` set df1"
    by force
  show ?thesis
    unfolding pd_concat_def set_append image_Un 1 2 by blast
qed

lemma nrows_pd_concat_new_row: "nrows (pd_concat df (new_row new_id f)) = nrows df + 1"
proof (cases df)
  case Nil
  then show ?thesis
    by (simp add: pd_concat_def nrows_def new_row_def)
next
  case (Cons p rest)
  obtain c s where p: "p = (c, s)" by (cases p)
  have "length (column_or_nan (new_row new_id f) c) = 1"
    by (simp add: column_or_nan_def new_row_def nrows_def)
  then show ?thesis
    using Cons p by (simp add: pd_concat_def nrows_def)
qed

lemma pd_concat_new_row_nonempty: "pd_concat df (new_row new_id f) \<noteq> []"
  by (cases df) (simp_all add: pd_concat_def new_row_def)

lemma map_of_to_csv:
  "map_of df c = Some s \<Longrightarrow> map_of (to_csv cd df) c = Some (map (render cd) s)"
  unfolding to_csv_def by (induction df) (auto split: if_splits)

lemma map_of_read_csv:
  assumes "read_csv cd f = Inr df" and "map_of f c = Some flds"
  shows "map_of df c
    = Some (read_col cd (if c \<in> set parse_dates then conv_date cd else conv cd) flds)"
proof -
  have df: "df = map (\<lambda>(c, flds).
      (c, read_col cd (if c \<in> set parse_dates then conv_date cd else conv cd) flds)) f"
    using assms(1) by (simp add: read_csv_def split: if_splits)
  show ?thesis
    unfolding df using assms(2) by (induction f) (auto split: if_splits)
qed

lemma shape_read_csv:
  assumes "read_csv cd (to_csv cd df) = Inr loaded"
  shows "nrows loaded = nrows df \<and> map fst loaded = map fst df"
proof -
  have l: "loaded = map (\<lambda>(c, flds).
      (c, read_col cd (if c \<in> set parse_dates then conv_date cd else conv cd) flds))
      (to_csv cd df)"
    using assms by (simp add: read_csv_def split: if_splits)
  show ?thesis
    unfolding l by (cases df) (auto simp: to_csv_def nrows_def read_col_def comp_def split_def)
qed

lemma has_date_columns:
  "list_all (\<lambda>c. c \<in> set (map fst (to_csv cd (pd_concat df (new_row new_id f))))) parse_dates"
proof -
  have "set parse_dates \<subseteq> fst ` set (new_row new_id f)"
    by (simp add: parse_dates_def new_row_def)
  then have "set parse_dates \<subseteq> fst ` set (pd_concat df (new_row new_id f))"
    unfolding columns_pd_concat by blast
  moreover have "map fst (to_csv cd (pd_concat df (new_row new_id f)))
      = map fst (pd_concat df (new_row new_id f))"
    by (simp add: to_csv_def comp_def split_def)
  ultimately show ?thesis
    unfolding list_all_iff by (simp add: subset_iff)
qed

lemma read_csv_after_append:
  "\<exists>loaded. read_csv cd (to_csv cd (pd_concat df (new_row new_id f))) = Inr loaded"
  using has_date_columns [of cd df new_id f] pd_concat_new_row_nonempty [of df new_id f]
  by (simp add: read_csv_def to_csv_def)

lemma example_iso_date: "iso_date ''2024-01-31'' = Stamp (to_datetime 738916)"
  by (simp add: iso_date_def decimal_def ymd2ord_def days_before_year_def
      days_before_month_def DAYS_BEFORE_MONTH_def is_leap_def)

lemma example_expiration:
  "to_datetime (debut example_form) + timedelta_days (duree example_form) = to_datetime 738916"
  by (simp add: example_form_def duree_def to_datetime_def timedelta_days_def
      epoch_ordinal_def ns_per_day_def)

text \<open>
  C4. The new record holds the start date, the duration, and as expiration the start
  plus the duration in days. Later nothing computes it again: appending a record keeps
  the expirations already in the frame, and loading reads the column \<open>Expiration\<close> of the
  file from the fields of that column alone.
\<close>

theorem expiration_fixed_at_creation:
  "map_of (new_row new_id f) ''Debut'' = Some [Stamp (to_datetime (debut f))]
   \<and> map_of (new_row new_id f) ''DureeJours'' = Some [IntC (duree f)]
   \<and> map_of (new_row new_id f) ''Expiration''
       = Some [Stamp (to_datetime (debut f) + timedelta_days (duree f))]
   \<and> dt_date (to_datetime (debut f) + timedelta_days (duree f)) = debut f + duree f
   \<and> (map_of df ''Expiration'' = Some old \<longrightarrow>
        map_of (pd_concat df (new_row new_id f)) ''Expiration''
          = Some (old @ [Stamp (to_datetime (debut f) + timedelta_days (duree f))]))
   \<and> (cache st path = None \<and> files st path = Some file
        \<and> map_of file ''Expiration'' = Some flds
        \<and> fst (load_data cd path st) = Inr loaded \<longrightarrow>
        map_of loaded ''Expiration'' = Some (read_col cd (conv_date cd) flds))"
proof (intro conjI impI)
  show "dt_date (to_datetime (debut f) + timedelta_days (duree f)) = debut f + duree f"
    by (rule dt_date_to_datetime)
next
  assume "map_of df ''Expiration'' = Some old"
  then show "map_of (pd_concat df (new_row new_id f)) ''Expiration''
          = Some (old @ [Stamp (to_datetime (debut f) + timedelta_days (duree f))])"
    by (simp add: map_of_pd_concat_left column_or_nan_def new_row_def)
next
  assume a: "cache st path = None \<and> files st path = Some file
        \<and> map_of file ''Expiration'' = Some flds
        \<and> fst (load_data cd path st) = Inr loaded"
  then have "read_csv cd file = Inr loaded"
    by (auto simp: load_data_def split: sum.splits)
  from map_of_read_csv [OF this, of "''Expiration''" flds] a
  show "map_of loaded ''Expiration'' = Some (read_col cd (conv_date cd) flds)"
    by (simp add: parse_dates_def)
qed (simp_all add: new_row_def)

theorem expiration_fixed_at_creation_witness:
  "map_of (pd_concat example_frame (new_row ''a3'' example_form)) ''Expiration''
     = Some [Stamp (to_datetime 738916), Stamp (to_datetime 738990), Stamp (to_datetime 738916)]
   \<and> (\<exists>loaded. fst (load_data text_codec DATA_PATH example_storage) = Inr loaded
        \<and> map_of loaded ''Expiration'' = Some [Stamp (to_datetime 738916)])"
proof -
  have o: "map_of example_frame ''Expiration''
      = Some [Stamp (to_datetime 738916), Stamp (to_datetime 738990)]"
    by (simp add: example_frame_def)
  obtain loaded where l: "fst (load_data text_codec DATA_PATH example_storage) = Inr loaded"
    by (simp add: load_data_def example_storage_def read_csv_def example_file_def
        parse_dates_def)
  have s: "cache example_storage DATA_PATH = None"
    "files example_storage DATA_PATH = Some example_file"
    "map_of example_file ''Expiration'' = Some [''2024-01-31'']"
    by (simp_all add: example_storage_def example_file_def)
  have "map_of loaded ''Expiration''
      = Some (read_col text_codec (conv_date text_codec) [''2024-01-31''])"
    using expiration_fixed_at_creation
        [of "''a3''" example_form example_frame
          "[Stamp (to_datetime 738916), Stamp (to_datetime 738990)]"
          example_storage DATA_PATH example_file "[''2024-01-31'']" text_codec loaded]
      s l by simp
  then have 2: "map_of loaded ''Expiration'' = Some [Stamp (to_datetime 738916)]"
    by (simp add: read_col_def is_na_def text_codec_def example_iso_date)
  have 1: "map_of (pd_concat example_frame (new_row ''a3'' example_form)) ''Expiration''
     = Some [Stamp (to_datetime 738916), Stamp (to_datetime 738990), Stamp (to_datetime 738916)]"
    using expiration_fixed_at_creation
        [of "''a3''" example_form example_frame
          "[Stamp (to_datetime 738916), Stamp (to_datetime 738990)]"
          example_storage DATA_PATH example_file "[''2024-01-31'']" text_codec loaded]
      o by (simp add: example_expiration)
  show ?thesis
    using 1 2 l by blast
qed

subsection \<open>Blank names\<close>

lemma all_dropWhile_iff: "(\<forall>x\<in>set (dropWhile P s). P x) \<longleftrightarrow> (\<forall>x\<in>set s. P x)"
proof
  assume a: "\<forall>x\<in>set (dropWhile P s). P x"
  have "dropWhile P s = []"
  proof (rule ccontr)
    assume n: "dropWhile P s \<noteq> []"
    then have "\<not> P (hd (dropWhile P s))" by (rule hd_dropWhile)
    moreover have "hd (dropWhile P s) \<in> set (dropWhile P s)" using n by simp
    ultimately show False using a by blast
  qed
  then show "\<forall>x\<in>set s. P x" by (simp add: dropWhile_eq_Nil_conv)
next
  assume "\<forall>x\<in>set s. P x"
  then show "\<forall>x\<in>set (dropWhile P s). P x" by (blast dest: set_dropWhileD)
qed

lemma strip_empty_iff: "strip s = [] \<longleftrightarrow> list_all is_space s"
  by (simp add: strip_def list_all_iff all_dropWhile_iff)

lemma strip_example_nom: "strip (nom example_form) = ''Ali''"
  by (simp add: strip_def example_form_def is_space_def)

text \<open>
  C5. When the name is empty or made of whitespace only, the handler rejects the form:
  the frame and the storage (the file and the cache) are what they were, so no record is
  created, nothing is written and the number of records is the same.
\<close>

theorem blank_name_rejected:
  "list_all is_space (nom f) \<Longrightarrow> enregistrer cd flt new_id f df st = (Rejected, df, st)"
  by (simp add: enregistrer_def strip_empty_iff)

theorem blank_name_rejected_witness:
  "list_all is_space (nom blank_form)
   \<and> enregistrer text_codec NoFault ''a3'' blank_form example_frame example_storage
       = (Rejected, example_frame, example_storage)"
proof -
  have b: "list_all is_space (nom blank_form)"
    by (simp add: blank_form_def is_space_def)
  show ?thesis
    using blank_name_rejected
        [OF b, of text_codec NoFault "''a3''" example_frame example_storage] b
    by simp
qed

subsection \<open>Appending\<close>

text \<open>
  C8. When the name is not blank and the write succeeds, the handler writes the whole
  frame, the old records with the new one under them, as the new content of the file,
  and clears the cache. The next load therefore reads that file, not a frame cached
  before: it has one row more than the frame had, and loading again gives the same.
\<close>

theorem append_rewrites_and_invalidates:
  assumes "strip (nom f) \<noteq> []"
  shows "\<exists>st' loaded.
     enregistrer cd NoFault new_id f df st = (Added, pd_concat df (new_row new_id f), st')
     \<and> files st' DATA_PATH = Some (to_csv cd (pd_concat df (new_row new_id f)))
     \<and> cache st' = Map.empty
     \<and> read_csv cd (to_csv cd (pd_concat df (new_row new_id f))) = Inr loaded
     \<and> fst (load_data cd DATA_PATH st') = Inr loaded
     \<and> fst (load_data cd DATA_PATH (snd (load_data cd DATA_PATH st'))) = Inr loaded
     \<and> nrows loaded = nrows df + 1
     \<and> (\<forall>c s. map_of df c = Some s \<longrightarrow>
          map_of loaded c
            = Some (read_col cd (if c \<in> set parse_dates then conv_date cd else conv cd)
                      (map (render cd) (s @ column_or_nan (new_row new_id f) c))))"
proof -
  let ?df = "pd_concat df (new_row new_id f)"
  let ?st = "st\<lparr>files := (files st)(DATA_PATH \<mapsto> to_csv cd ?df), cache := Map.empty\<rparr>"
  obtain loaded where l: "read_csv cd (to_csv cd ?df) = Inr loaded"
    using read_csv_after_append by blast
  have e: "enregistrer cd NoFault new_id f df st = (Added, ?df, ?st)"
    using assms by (simp add: enregistrer_def save_data_def Let_def)
  have 1: "load_data cd DATA_PATH ?st = (Inr loaded, ?st\<lparr>cache := [DATA_PATH \<mapsto> loaded]\<rparr>)"
    by (simp add: load_data_def l)
  have 2: "fst (load_data cd DATA_PATH (?st\<lparr>cache := [DATA_PATH \<mapsto> loaded]\<rparr>)) = Inr loaded"
    by (simp add: load_data_def)
  have n: "nrows loaded = nrows df + 1"
    using shape_read_csv [OF l] by (simp add: nrows_pd_concat_new_row)
  have c: "map_of loaded c
      = Some (read_col cd (if c \<in> set parse_dates then conv_date cd else conv cd)
                (map (render cd) (s @ column_or_nan (new_row new_id f) c)))"
    if "map_of df c = Some s" for c s
    by (rule map_of_read_csv [OF l map_of_to_csv [OF map_of_pd_concat_left [OF that]]])
  show ?thesis
    using e l 1 2 n c by simp
qed

theorem append_rewrites_and_invalidates_witness:
  "strip (nom example_form) \<noteq> []
   \<and> (\<exists>st' loaded.
        enregistrer text_codec NoFault ''a3'' example_form example_frame
            (example_storage\<lparr>cache := [DATA_PATH \<mapsto> example_frame]\<rparr>)
          = (Added, pd_concat example_frame (new_row ''a3'' example_form), st')
        \<and> files st' DATA_PATH
            = Some (to_csv text_codec (pd_concat example_frame (new_row ''a3'' example_form)))
        \<and> cache st' = Map.empty
        \<and> fst (load_data text_codec DATA_PATH st') = Inr loaded
        \<and> nrows loaded = 3
        \<and> map_of loaded ''ID'' = Some [Str ''a1'', Str ''a2'', Str ''a3''])"
proof -
  have s: "strip (nom example_form) \<noteq> []"
    by (simp add: strip_example_nom)
  have n: "nrows example_frame = 2"
    by (simp add: nrows_def example_frame_def)
  have i: "map_of example_frame ''ID'' = Some [Str ''a1'', Str ''a2'']"
    by (simp add: example_frame_def)
  from append_rewrites_and_invalidates
        [OF s, of text_codec "''a3''" example_frame
          "example_storage\<lparr>cache := [DATA_PATH \<mapsto> example_frame]\<rparr>"]
  obtain st' loaded where
    r: "enregistrer text_codec NoFault ''a3'' example_form example_frame
            (example_storage\<lparr>cache := [DATA_PATH \<mapsto> example_frame]\<rparr>)
          = (Added, pd_concat example_frame (new_row ''a3'' example_form), st')"
      "files st' DATA_PATH
            = Some (to_csv text_codec (pd_concat example_frame (new_row ''a3'' example_form)))"
      "cache st' = Map.empty"
      "fst (load_data text_codec DATA_PATH st') = Inr loaded"
      "nrows loaded = nrows example_frame + 1"
    and c: "\<forall>c s. map_of example_frame c = Some s \<longrightarrow>
          map_of loaded c
            = Some (read_col text_codec
                      (if c \<in> set parse_dates then conv_date text_codec else conv text_codec)
                      (map (render text_codec)
                         (s @ column_or_nan (new_row ''a3'' example_form) c)))"
    by blast
  from c i have "map_of loaded ''ID'' = Some [Str ''a1'', Str ''a2'', Str ''a3'']"
    by (simp add: parse_dates_def column_or_nan_def new_row_def render_def read_col_def
        is_na_def text_codec_def)
  with r s n show ?thesis
    by auto
qed

subsection \<open>Saving and loading again\<close>

text \<open>
  C6. A record saved with the telephone field left empty, as the form has it by
  default, does not come back as it was: the empty text is written as an empty field,
  and an empty field is read as a missing value. This holds for every codec.
\<close>

theorem blank_phone_not_round_tripped:
  "map_of (new_row ''a1'' example_form) ''Telephone'' = Some [Str []]
   \<and> (\<exists>loaded.
        fst (load_data cd DATA_PATH
              (snd (save_data cd NoFault (new_row ''a1'' example_form) DATA_PATH first_run)))
          = Inr loaded
        \<and> map_of loaded ''Telephone'' = Some [NaN])"
proof -
  let ?df = "new_row ''a1'' example_form"
  have t: "map_of ?df ''Telephone'' = Some [Str []]"
    by (simp add: new_row_def example_form_def strip_def)
  have "?df = pd_concat [] ?df"
    by (simp add: pd_concat_def nrows_def split_def)
  then obtain loaded where l: "read_csv cd (to_csv cd ?df) = Inr loaded"
    using read_csv_after_append [of cd "[]" "''a1''" example_form] by auto
  have "map_of (to_csv cd ?df) ''Telephone'' = Some [[]]"
    using map_of_to_csv [OF t, of cd] by (simp add: render_def)
  from map_of_read_csv [OF l this]
  have "map_of loaded ''Telephone'' = Some [NaN]"
    by (simp add: read_col_def is_na_def)
  moreover have "fst (load_data cd DATA_PATH
              (snd (save_data cd NoFault ?df DATA_PATH first_run))) = Inr loaded"
    by (simp add: load_data_def save_data_def first_run_def l)
  ultimately show ?thesis using t by blast
qed

subsection \<open>A write that fails\<close>

text \<open>
  C9, as the spec states it, fails: a write that fails after the file was opened leaves
  a file that is not the one stored before. Here the file with one record is empty
  after a write that failed before its first line.
\<close>

theorem failed_write_counterexample:
  "fst (save_data text_codec (FailAfter 0) (new_row ''a2'' example_form) DATA_PATH
         example_storage) = Inl OSError
   \<and> files (snd (save_data text_codec (FailAfter 0) (new_row ''a2'' example_form) DATA_PATH
         example_storage)) DATA_PATH = Some []
   \<and> files example_storage DATA_PATH = Some example_file
   \<and> example_file \<noteq> []"
  by (simp add: save_data_def example_storage_def example_file_def)

text \<open>
  C9, amended. \<open>save_data\<close> writes the file in place. A write that cannot open the file
  leaves the storage as it was. A write that fails after \<open>k\<close> lines leaves at the path the
  first \<open>k\<close> lines of the new table, whatever the file held before; the error is raised
  and the cache is not cleared.
\<close>

theorem save_data_failure_in_place:
  "save_data cd FailOpen df path st = (Inl PermissionError, st)
   \<and> fst (save_data cd (FailAfter k) df path st) = Inl OSError
   \<and> files (snd (save_data cd (FailAfter k) df path st)) path
       = Some (first_lines k (to_csv cd df))
   \<and> cache (snd (save_data cd (FailAfter k) df path st)) = cache st"
  by (simp add: save_data_def)

end
